theory Spec2Isabelle
  imports Complex_Main
begin

section \<open>Centipede: the segmented chain, its obstacles and the spawn scheduler\<close>

text \<open>
  A shallow embedding of \<^verbatim>\<open>src/centipede_game.py\<close>. Python floats are read as
  real numbers (exact arithmetic); Python object references to centipede segments are
  natural numbers into a store, because the same segment object is held by the scene
  and by the engine's \<^verbatim>\<open>centipede_segments\<close> list and is mutated through either.
  Sound playback, printing and the base-class \<^verbatim>\<open>GameObject.update\<close> (which only
  drives attached components) belong to the engine package and have no counterpart here.
\<close>

subsection \<open>Vectors\<close>

datatype Vector2 = Vector2 (x_coord: real) (y_coord: real)

text \<open>
  Modelled from the spec: the engine's \<^verbatim>\<open>Vector2\<close> class is not part of the
  sources. Its arithmetic is componentwise and \<^verbatim>\<open>distance_to\<close> is the Euclidean
  distance (spec section 4.1).
\<close>

definition vec_add :: "Vector2 \<Rightarrow> Vector2 \<Rightarrow> Vector2" where
  "vec_add a b = Vector2 (x_coord a + x_coord b) (y_coord a + y_coord b)"

definition vec_scale :: "Vector2 \<Rightarrow> real \<Rightarrow> Vector2" where
  "vec_scale a k = Vector2 (x_coord a * k) (y_coord a * k)"

definition distance_to :: "Vector2 \<Rightarrow> Vector2 \<Rightarrow> real" where
  "distance_to a b = sqrt ((x_coord a - x_coord b)\<^sup>2 + (y_coord a - y_coord b)\<^sup>2)"

subsection \<open>Game objects\<close>

text \<open>
  The fields every \<^verbatim>\<open>GameObject\<close> carries that the game code reads or writes:
  \<^verbatim>\<open>transform.position\<close>, \<^verbatim>\<open>is_destroyed\<close> and the colour of the attached
  \<^verbatim>\<open>Sprite\<close> component.
  Modelled from the spec: \<^verbatim>\<open>GameObject.destroy\<close> is engine code outside the
  sources; it marks the object destroyed (spec section 3, lifecycle of an Actor).
\<close>

record GameObject =
  position :: Vector2
  is_destroyed :: bool
  sprite :: string

definition destroy :: "'a GameObject_scheme \<Rightarrow> 'a GameObject_scheme" where
  "destroy obj = obj\<lparr>is_destroyed := True\<rparr>"

record Mushroom = GameObject +
  hits :: nat
  max_hits :: nat
  is_poisoned :: bool
  points :: int

record CentipedeSegment = GameObject +
  is_head :: bool
  speed :: real
  direction :: Vector2
  descent_distance :: real
  is_descending :: bool
  descend_progress :: real
  is_poisoned_descent :: bool
  in_player_area :: bool

record Flea = GameObject +
  flea_speed :: real
  hits_required :: nat
  hits_taken :: nat
  mushroom_drop_chance :: real
  flea_points :: int

record Spider = GameObject +
  spider_speed :: real
  spider_direction :: Vector2
  zigzag_timer :: real
  zigzag_interval :: real
  points_base :: int

record Scorpion = GameObject +
  scorpion_speed :: real
  scorpion_direction :: Vector2
  scorpion_points :: int

type_synonym ref = nat

text \<open>
  The hit counters (\<^verbatim>\<open>hits\<close>, \<^verbatim>\<open>hits_taken\<close>) and their limits are only ever
  set to a non-negative constant or incremented, so they are natural numbers; scores
  and point values are integers.
\<close>

text \<open>
  What \<^verbatim>\<open>scene.game_objects\<close> holds, in insertion order. Segments are held by
  reference; the other kinds have a single owner (the scene) and are held by value.
\<close>

datatype game_object =
    MushroomObj Mushroom
  | SegmentObj ref
  | FleaObj Flea
  | SpiderObj Spider
  | ScorpionObj Scorpion
  | BugBlasterObj Vector2
  | DartObj Vector2

subsection \<open>Mushroom\<close>

definition mushroom_colors :: "string list" where
  "mushroom_colors = [''#00FF00'', ''#FFFF00'', ''#FF8000'', ''#FF0000'']"

definition update_sprite :: "Mushroom \<Rightarrow> Mushroom" where
  "update_sprite m =
     m\<lparr>sprite := (if is_poisoned m then ''#FF00FF''
                   else mushroom_colors ! (min (hits m) 3))\<rparr>"

definition Mushroom_init :: "real \<Rightarrow> real \<Rightarrow> Mushroom" where
  "Mushroom_init px py =
     update_sprite
       \<lparr>position = Vector2 px py, is_destroyed = False, sprite = [],
        hits = 0, max_hits = 4, is_poisoned = False, points = 1\<rparr>"

text \<open>
  \<^verbatim>\<open>Mushroom.hit\<close>. The first argument says whether the scene has its
  \<^verbatim>\<open>engine\<close> attribute (\<^verbatim>\<open>hasattr(self.scene, 'engine')\<close>); the engine's score is
  threaded through.
\<close>

definition Mushroom_hit :: "bool \<Rightarrow> Mushroom \<times> int \<Rightarrow> Mushroom \<times> int" where
  "Mushroom_hit has_engine ms =
     (let m = fst ms; sc = snd ms in
      if is_destroyed m then (m, sc)
      else
        let m1 = m\<lparr>hits := hits m + 1\<rparr> in
        if hits m1 \<ge> max_hits m1
        then (destroy m1, if has_engine then sc + points m1 else sc)
        else (update_sprite m1, sc))"

definition poison :: "Mushroom \<Rightarrow> Mushroom" where
  "poison m = update_sprite (m\<lparr>is_poisoned := True\<rparr>)"

definition heal :: "Mushroom \<Rightarrow> Mushroom" where
  "heal m = update_sprite (m\<lparr>hits := 0, is_poisoned := False\<rparr>)"

subsection \<open>Centipede segment\<close>

definition CentipedeSegment_init :: "bool \<Rightarrow> CentipedeSegment" where
  "CentipedeSegment_init head =
     \<lparr>position = Vector2 0 0, is_destroyed = False,
      sprite = (if head then ''#FFFF00'' else ''#FF8000''),
      is_head = head, speed = 50, direction = Vector2 1 0, descent_distance = 16,
      is_descending = False, descend_progress = 0, is_poisoned_descent = False,
      in_player_area = False\<rparr>"

definition start_descent :: "CentipedeSegment \<Rightarrow> CentipedeSegment" where
  "start_descent s = s\<lparr>is_descending := True, descend_progress := 0\<rparr>"

definition start_poison_descent :: "CentipedeSegment \<Rightarrow> CentipedeSegment" where
  "start_poison_descent s =
     s\<lparr>direction := Vector2 0 1, is_poisoned_descent := True, is_descending := False\<rparr>"

text \<open>The mushrooms of a scene that are not destroyed, in scene order.\<close>

fun live_mushrooms :: "game_object list \<Rightarrow> Mushroom list" where
  "live_mushrooms [] = []"
| "live_mushrooms (MushroomObj m # objs) =
     (if is_destroyed m then live_mushrooms objs else m # live_mushrooms objs)"
| "live_mushrooms (_ # objs) = live_mushrooms objs"

text \<open>
  The loop of \<^verbatim>\<open>_check_mushroom_collision\<close>: the first mushroom closer than 12
  decides; a poisoned one starts the poison descent before the function returns True.
\<close>

fun mushroom_loop :: "Mushroom list \<Rightarrow> Vector2 \<Rightarrow> CentipedeSegment \<Rightarrow> bool \<times> CentipedeSegment" where
  "mushroom_loop [] new_pos s = (False, s)"
| "mushroom_loop (m # ms) new_pos s =
     (if distance_to new_pos (position m) < 12
      then (True, if is_poisoned m then start_poison_descent s else s)
      else mushroom_loop ms new_pos s)"

text \<open>
  The scene argument is \<open>None\<close> when the scene has no \<^verbatim>\<open>game_objects\<close> attribute
  (the \<^verbatim>\<open>hasattr\<close> test of the source).
\<close>

definition check_mushroom_collision ::
  "game_object list option \<Rightarrow> Vector2 \<Rightarrow> CentipedeSegment \<Rightarrow> bool \<times> CentipedeSegment" where
  "check_mushroom_collision scene new_pos s =
     (case scene of
        None \<Rightarrow> (False, s)
      | Some objs \<Rightarrow> mushroom_loop (live_mushrooms objs) new_pos s)"

definition handle_horizontal_movement ::
  "game_object list option \<Rightarrow> real \<Rightarrow> CentipedeSegment \<Rightarrow> CentipedeSegment" where
  "handle_horizontal_movement scene delta_time s =
     (let move_distance = speed s * delta_time;
          new_pos = vec_add (position s) (vec_scale (direction s) move_distance)
      in if x_coord new_pos \<le> 16 \<or> x_coord new_pos \<ge> 784
         then start_descent s
         else
           let r = check_mushroom_collision scene new_pos s in
           if fst r then start_descent (snd r)
           else (snd r)\<lparr>position := new_pos\<rparr>)"

definition handle_descent :: "real \<Rightarrow> CentipedeSegment \<Rightarrow> CentipedeSegment" where
  "handle_descent delta_time s =
     (let s1 = s\<lparr>descend_progress := descend_progress s + speed s * 2 * delta_time\<rparr> in
      if descend_progress s1 \<ge> descent_distance s1
      then
        let s2 = s1\<lparr>is_descending := False, descend_progress := 0,
                    direction := Vector2 (- x_coord (direction s1)) (y_coord (direction s1))\<rparr>
        in if is_poisoned_descent s2 then s2\<lparr>is_poisoned_descent := False\<rparr> else s2
      else
        s1\<lparr>position := Vector2 (x_coord (position s1))
                               (y_coord (position s1) + speed s1 * 2 * delta_time)\<rparr>)"

definition enter_player_area :: "CentipedeSegment \<Rightarrow> CentipedeSegment" where
  "enter_player_area s =
     (if \<not> in_player_area s
      then s\<lparr>in_player_area := True, speed := speed s * 0.7\<rparr>
      else s)"

definition CentipedeSegment_update ::
  "game_object list option \<Rightarrow> real \<Rightarrow> CentipedeSegment \<Rightarrow> CentipedeSegment" where
  "CentipedeSegment_update scene delta_time s =
     (let s1 = (if is_descending s then handle_descent delta_time s
                else handle_horizontal_movement scene delta_time s)
      in if y_coord (position s1) > 400 then enter_player_area s1 else s1)"

subsection \<open>Flea, spider, scorpion\<close>

text \<open>
  The constructors draw random numbers (\<^verbatim>\<open>random.randint\<close>, \<^verbatim>\<open>random.choice\<close>);
  the drawn values are arguments here.
\<close>

definition Flea_init :: "int \<Rightarrow> Flea" where
  "Flea_init rand_x =
     \<lparr>position = Vector2 (of_int rand_x) (- 10), is_destroyed = False, sprite = ''#8A2BE2'',
      flea_speed = 100, hits_required = 2, hits_taken = 0, mushroom_drop_chance = 0.3,
      flea_points = 200\<rparr>"

text \<open>\<^verbatim>\<open>Flea.hit\<close>, with the scene's \<^verbatim>\<open>engine\<close> test and the score as for the mushroom.\<close>

definition Flea_hit :: "bool \<Rightarrow> Flea \<times> int \<Rightarrow> Flea \<times> int" where
  "Flea_hit has_engine fs =
     (let f = fst fs; sc = snd fs;
          f1 = f\<lparr>hits_taken := hits_taken f + 1\<rparr>
      in if hits_taken f1 \<ge> hits_required f1
         then (destroy f1, if has_engine then sc + flea_points f1 else sc)
         else (f1, sc))"

definition Spider_init :: "int \<Rightarrow> int \<Rightarrow> Spider" where
  "Spider_init side rand_y =
     \<lparr>position = Vector2 (if side > 0 then 50 else 750) (of_int rand_y),
      is_destroyed = False, sprite = ''#FF0000'',
      spider_speed = 80, spider_direction = Vector2 (of_int (- side)) 0,
      zigzag_timer = 0, zigzag_interval = 0.5, points_base = 300\<rparr>"

definition Scorpion_init :: "int \<Rightarrow> int \<Rightarrow> Scorpion" where
  "Scorpion_init side rand_y =
     \<lparr>position = Vector2 (if side > 0 then - 20 else 820) (of_int rand_y),
      is_destroyed = False, sprite = ''#00FFFF'',
      scorpion_speed = 60, scorpion_direction = Vector2 (of_int side) 0,
      scorpion_points = 1000\<rparr>"

subsection \<open>The engine state\<close>

text \<open>
  \<^verbatim>\<open>CentipedeGame\<close> together with the parts of its current scene that the game code
  uses: the object list, whether \<^verbatim>\<open>scene.engine\<close> has been set, and the store of
  segment objects with its allocation counter.
\<close>

record CentipedeGame =
  score :: int
  lives :: int
  level :: int
  centipede_segments :: "ref list"
  current_centipede_length :: int
  flea_spawn_timer :: real
  spider_spawn_timer :: real
  scorpion_spawn_timer :: real
  flea_spawn_rate :: real
  spider_spawn_rate :: real
  scorpion_spawn_rate :: real
  game_objects :: "game_object list"
  scene_engine :: bool
  segment_store :: "ref \<Rightarrow> CentipedeSegment"
  next_ref :: ref

definition CentipedeGame_init :: CentipedeGame where
  "CentipedeGame_init =
     \<lparr>score = 0, lives = 3, level = 1, centipede_segments = [],
      current_centipede_length = 12,
      flea_spawn_timer = 0, spider_spawn_timer = 0, scorpion_spawn_timer = 0,
      flea_spawn_rate = 8, spider_spawn_rate = 15, scorpion_spawn_rate = 25,
      game_objects = [], scene_engine = False,
      segment_store = (\<lambda>_. CentipedeSegment_init False), next_ref = 0\<rparr>"

text \<open>
  Modelled from the spec: \<^verbatim>\<open>Scene.add_object\<close> is engine code outside the sources;
  the scene container keeps its objects in insertion order (spec sections 1 and 5).
\<close>

definition add_object :: "game_object \<Rightarrow> CentipedeGame \<Rightarrow> CentipedeGame" where
  "add_object obj g = g\<lparr>game_objects := game_objects g @ [obj]\<rparr>"

text \<open>One round of the loop of \<^verbatim>\<open>spawn_centipede\<close>, for index \<open>i\<close>.\<close>

definition spawn_segment :: "real \<Rightarrow> nat \<Rightarrow> CentipedeGame \<Rightarrow> CentipedeGame" where
  "spawn_segment start_x i g =
     (let r = next_ref g;
          seg0 = (CentipedeSegment_init (i = 0))\<lparr>position := Vector2 (start_x + of_nat i * 16) 50\<rparr>;
          seg1 = (if start_x > 400 then seg0\<lparr>direction := Vector2 (- 1) 0\<rparr> else seg0)
      in add_object (SegmentObj r)
           (g\<lparr>segment_store := (segment_store g)(r := seg1), next_ref := Suc r,
              centipede_segments := centipede_segments g @ [r]\<rparr>))"

text \<open>\<^verbatim>\<open>spawn_centipede\<close>; the argument is the outcome of \<^verbatim>\<open>random.choice([True, False])\<close>.\<close>

definition spawn_centipede :: "bool \<Rightarrow> CentipedeGame \<Rightarrow> CentipedeGame" where
  "spawn_centipede coin g =
     (let start_x = (if coin then 50 else 750) in
      fold (spawn_segment start_x) [0..<nat (current_centipede_length g)]
        (g\<lparr>centipede_segments := []\<rparr>))"

subsection \<open>Splitting the chain\<close>

datatype py_error = ValueError | IndexError

text \<open>\<^verbatim>\<open>list.index\<close> and \<^verbatim>\<open>list.remove\<close>: first occurrence, ValueError when absent.\<close>

fun list_index :: "'a list \<Rightarrow> 'a \<Rightarrow> py_error + nat" where
  "list_index [] v = Inl ValueError"
| "list_index (u # us) v =
     (if u = v then Inr 0
      else case list_index us v of Inl e \<Rightarrow> Inl e | Inr i \<Rightarrow> Inr (Suc i))"

fun list_remove :: "'a list \<Rightarrow> 'a \<Rightarrow> py_error + 'a list" where
  "list_remove [] v = Inl ValueError"
| "list_remove (u # us) v =
     (if u = v then Inr us
      else case list_remove us v of Inl e \<Rightarrow> Inl e | Inr rest \<Rightarrow> Inr (u # rest))"

text \<open>Setting \<^verbatim>\<open>is_head\<close> and swapping the sprite for the yellow one.\<close>

definition promote_head :: "ref \<Rightarrow> CentipedeGame \<Rightarrow> CentipedeGame" where
  "promote_head r g =
     g\<lparr>segment_store :=
         (segment_store g)(r := (segment_store g r)\<lparr>is_head := True, sprite := ''#FFFF00''\<rparr>)\<rparr>"

text \<open>The body of \<^verbatim>\<open>for i in range(hit_index)\<close>.\<close>

definition split_loop_body :: "nat \<Rightarrow> nat \<Rightarrow> CentipedeGame \<Rightarrow> CentipedeGame" where
  "split_loop_body hit_index i g =
     (if i < length (centipede_segments g)
      then (let segment = centipede_segments g ! i
            in if int i = int hit_index - 1 then promote_head segment g else g)
      else g)"

definition split_centipede_at_segment :: "ref \<Rightarrow> CentipedeGame \<Rightarrow> py_error + CentipedeGame" where
  "split_centipede_at_segment hit_segment g =
     (if hit_segment \<notin> set (centipede_segments g) then Inr g
      else
        case list_index (centipede_segments g) hit_segment of
          Inl e \<Rightarrow> Inl e
        | Inr hit_index \<Rightarrow>
            (case list_remove (centipede_segments g) hit_segment of
               Inl e \<Rightarrow> Inl e
             | Inr rest \<Rightarrow>
                 let g1 = g\<lparr>centipede_segments := rest\<rparr>;
                     g2 = (if hit_index > 0
                           then fold (split_loop_body hit_index) [0..<hit_index] g1
                           else g1)
                 in Inr (case centipede_segments g2 of
                           [] \<Rightarrow> g2
                         | first_remaining # _ \<Rightarrow>
                             if \<not> is_head (segment_store g2 first_remaining)
                             then promote_head first_remaining g2
                             else g2)))"

text \<open>\<^verbatim>\<open>CentipedeSegment.hit\<close> for the segment object \<open>self\<close>.\<close>

definition CentipedeSegment_hit :: "ref \<Rightarrow> CentipedeGame \<Rightarrow> py_error + CentipedeGame" where
  "CentipedeSegment_hit self g =
     (let s = segment_store g self in
      if is_destroyed s then Inr g
      else
        let pts = (if is_head s then 100 else 10);
            g1 = (if scene_engine g then g\<lparr>score := score g + pts\<rparr> else g);
            mushroom = Mushroom_init (x_coord (position s)) (y_coord (position s));
            g2 = add_object (MushroomObj mushroom) g1
        in case (if scene_engine g2 then split_centipede_at_segment self g2 else Inr g2) of
             Inl e \<Rightarrow> Inl e
           | Inr g3 \<Rightarrow>
               Inr (g3\<lparr>segment_store :=
                        (segment_store g3)(self := destroy (segment_store g3 self))\<rparr>))"

subsection \<open>Spawning and levels\<close>

record spawn_draws =
  flea_x :: int
  spider_side :: int
  spider_y :: int
  scorpion_side :: int
  scorpion_y :: int

definition player_area_mushrooms :: "game_object list \<Rightarrow> Mushroom list" where
  "player_area_mushrooms objs = filter (\<lambda>m. y_coord (position m) > 400) (live_mushrooms objs)"

definition spawn_flea :: "spawn_draws \<Rightarrow> CentipedeGame \<Rightarrow> CentipedeGame" where
  "spawn_flea d g =
     (if flea_spawn_timer g \<ge> flea_spawn_rate g
      then
        (let g1 = (if length (player_area_mushrooms (game_objects g)) < 3
                   then add_object (FleaObj (Flea_init (flea_x d))) g else g)
         in g1\<lparr>flea_spawn_timer := 0\<rparr>)
      else g)"

definition spawn_spider :: "spawn_draws \<Rightarrow> CentipedeGame \<Rightarrow> CentipedeGame" where
  "spawn_spider d g =
     (if spider_spawn_timer g \<ge> spider_spawn_rate g
      then (add_object (SpiderObj (Spider_init (spider_side d) (spider_y d))) g)
             \<lparr>spider_spawn_timer := 0\<rparr>
      else g)"

definition spawn_scorpion :: "spawn_draws \<Rightarrow> CentipedeGame \<Rightarrow> CentipedeGame" where
  "spawn_scorpion d g =
     (if scorpion_spawn_timer g \<ge> scorpion_spawn_rate g
      then (add_object (ScorpionObj (Scorpion_init (scorpion_side d) (scorpion_y d))) g)
             \<lparr>scorpion_spawn_timer := 0\<rparr>
      else g)"

text \<open>\<^verbatim>\<open>_spawn_enemies\<close>: the three blocks in source order.\<close>

definition spawn_enemies :: "spawn_draws \<Rightarrow> CentipedeGame \<Rightarrow> CentipedeGame" where
  "spawn_enemies d g = spawn_scorpion d (spawn_spider d (spawn_flea d g))"

text \<open>
  The timer stage of \<^verbatim>\<open>CentipedeGame.update\<close>: the three timers advance by
  \<^verbatim>\<open>delta_time\<close>, then \<^verbatim>\<open>_spawn_enemies\<close> runs.
\<close>

definition update_spawn_timers :: "real \<Rightarrow> spawn_draws \<Rightarrow> CentipedeGame \<Rightarrow> CentipedeGame" where
  "update_spawn_timers delta_time d g =
     spawn_enemies d
       (g\<lparr>flea_spawn_timer := flea_spawn_timer g + delta_time,
          spider_spawn_timer := spider_spawn_timer g + delta_time,
          scorpion_spawn_timer := scorpion_spawn_timer g + delta_time\<rparr>)"

text \<open>\<^verbatim>\<open>_next_level\<close>; the argument is the coin of \<^verbatim>\<open>spawn_centipede\<close>.\<close>

definition next_level :: "bool \<Rightarrow> CentipedeGame \<Rightarrow> CentipedeGame" where
  "next_level coin g =
     (let g1 = g\<lparr>level := level g + 1\<rparr>;
          g2 = g1\<lparr>current_centipede_length := max 1 (current_centipede_length g1 - 1)\<rparr>;
          g3 = spawn_centipede coin g2
      in g3\<lparr>flea_spawn_rate := max 5 (flea_spawn_rate g3 - 0.5),
            spider_spawn_rate := max 10 (spider_spawn_rate g3 - 1),
            scorpion_spawn_rate := max 15 (scorpion_spawn_rate g3 - 2)\<rparr>)"

text \<open>Completing several levels in a row, one coin per level.\<close>

fun next_levels :: "bool list \<Rightarrow> CentipedeGame \<Rightarrow> CentipedeGame" where
  "next_levels [] g = g"
| "next_levels (coin # coins) g = next_levels coins (next_level coin g)"

text \<open>Several frames of one segment: each tick has its own scene and \<^verbatim>\<open>delta_time\<close>.\<close>

fun run_ticks :: "(game_object list option \<times> real) list \<Rightarrow> CentipedeSegment \<Rightarrow> CentipedeSegment" where
  "run_ticks [] s = s"
| "run_ticks (t # ts) s = run_ticks ts (CentipedeSegment_update (fst t) (snd t) s)"

text \<open>Several \<^verbatim>\<open>hit()\<close> calls on one mushroom.\<close>

fun mushroom_hits :: "nat \<Rightarrow> bool \<Rightarrow> Mushroom \<times> int \<Rightarrow> Mushroom \<times> int" where
  "mushroom_hits 0 has_engine ms = ms"
| "mushroom_hits (Suc n) has_engine ms = mushroom_hits n has_engine (Mushroom_hit has_engine ms)"

text \<open>How many of the listed segments carry the head flag.\<close>

definition count_heads :: "CentipedeGame \<Rightarrow> ref list \<Rightarrow> nat" where
  "count_heads g rs = length (filter (\<lambda>r. is_head (segment_store g r)) rs)"

text \<open>
  Along the given ticks the incremented descent progress stays below
  \<^verbatim>\<open>descent_distance\<close>, so \<^verbatim>\<open>_handle_descent\<close> takes its "continue" branch each time.
\<close>

fun keeps_descending :: "(game_object list option \<times> real) list \<Rightarrow> CentipedeSegment \<Rightarrow> bool" where
  "keeps_descending [] s = True"
| "keeps_descending (t # ts) s =
     (descend_progress s + speed s * 2 * snd t < descent_distance s \<and>
      keeps_descending ts (CentipedeSegment_update (fst t) (snd t) s))"

subsection \<open>Example states\<close>

text \<open>The first centipede of a game whose scene is attached to the engine: twelve segments.\<close>

definition fresh_game :: CentipedeGame where
  "fresh_game = spawn_centipede True (CentipedeGame_init\<lparr>scene_engine := True\<rparr>)"

text \<open>A body segment past the right edge that has just started to descend.\<close>

definition descending_segment :: CentipedeSegment where
  "descending_segment =
     start_descent
       ((CentipedeSegment_init False)\<lparr>position := Vector2 798 50, direction := Vector2 (- 1) 0\<rparr>)"

text \<open>A body segment moving right, five units short of a poisoned mushroom's centre.\<close>

definition moving_segment :: CentipedeSegment where
  "moving_segment = (CentipedeSegment_init False)\<lparr>position := Vector2 100 50\<rparr>"

definition poisoned_scene :: "game_object list option" where
  "poisoned_scene = Some [MushroomObj (poison (Mushroom_init 110 50))]"

text \<open>Three live mushrooms in the player area (below y = 400).\<close>

definition crowded_game :: CentipedeGame where
  "crowded_game =
     CentipedeGame_init
       \<lparr>flea_spawn_timer := 7.95, spider_spawn_timer := 3, scorpion_spawn_timer := 24.95,
        game_objects := [MushroomObj (Mushroom_init 100 420), MushroomObj (Mushroom_init 200 440),
                         MushroomObj (Mushroom_init 300 460)]\<rparr>"

definition some_draws :: spawn_draws where
  "some_draws = \<lparr>flea_x = 400, spider_side = 1, spider_y = 500, scorpion_side = - 1, scorpion_y = 200\<rparr>"

section \<open>Segment locomotion\<close>

lemma distance_to_less_iff:
  "0 < d \<Longrightarrow> distance_to a b < d \<longleftrightarrow>
     (x_coord a - x_coord b)\<^sup>2 + (y_coord a - y_coord b)\<^sup>2 < d\<^sup>2"
  unfolding distance_to_def
  by (metis real_sqrt_less_iff real_sqrt_abs abs_of_pos)

lemma descent_continues:
  assumes "is_descending s" "descend_progress s + speed s * 2 * dt < descent_distance s"
  shows "CentipedeSegment_update scene dt s =
     s\<lparr>descend_progress := descend_progress s + speed s * 2 * dt,
       position := Vector2 (x_coord (position s)) (y_coord (position s) + speed s * 2 * dt),
       in_player_area := (in_player_area s \<or> y_coord (position s) + speed s * 2 * dt > 400),
       speed := (if y_coord (position s) + speed s * 2 * dt > 400 \<and> \<not> in_player_area s
                 then speed s * 0.7 else speed s)\<rparr>"
  using assms
  by (simp add: CentipedeSegment_update_def handle_descent_def enter_player_area_def Let_def)

lemma descent_completes:
  assumes "is_descending s" "descend_progress s + speed s * 2 * dt \<ge> descent_distance s"
  shows "CentipedeSegment_update scene dt s =
     s\<lparr>is_descending := False, descend_progress := 0,
       direction := Vector2 (- x_coord (direction s)) (y_coord (direction s)),
       is_poisoned_descent := False,
       in_player_area := (in_player_area s \<or> y_coord (position s) > 400),
       speed := (if y_coord (position s) > 400 \<and> \<not> in_player_area s
                 then speed s * 0.7 else speed s)\<rparr>"
  using assms
  by (auto simp add: CentipedeSegment_update_def handle_descent_def enter_player_area_def Let_def)

lemma descending_ignores_scene:
  "is_descending s \<Longrightarrow>
     CentipedeSegment_update scene dt s = CentipedeSegment_update scene' dt s"
  by (simp add: CentipedeSegment_update_def)

lemma keeps_descending_run:
  "is_descending s \<Longrightarrow> keeps_descending ts s \<Longrightarrow>
     is_descending (run_ticks ts s) \<and> direction (run_ticks ts s) = direction s
     \<and> descent_distance (run_ticks ts s) = descent_distance s
     \<and> x_coord (position (run_ticks ts s)) = x_coord (position s)"
proof (induction ts arbitrary: s)
  case Nil
  then show ?case by simp
next
  case (Cons t ts)
  let ?s1 = "CentipedeSegment_update (fst t) (snd t) s"
  from Cons.prems have below: "descend_progress s + speed s * 2 * snd t < descent_distance s"
    and rest: "keeps_descending ts ?s1" by simp_all
  from descent_continues[OF Cons.prems(1) below, of "fst t"]
  have s1: "is_descending ?s1" "direction ?s1 = direction s"
    "descent_distance ?s1 = descent_distance s"
    "x_coord (position ?s1) = x_coord (position s)"
    using Cons.prems(1) by simp_all
  from Cons.IH[OF s1(1) rest] s1 show ?case by simp
qed

text \<open>
  Claim C4. A descending segment keeps its direction for as long as the incremented
  progress stays below \<^verbatim>\<open>descent_distance\<close>; on the first tick where it reaches
  \<^verbatim>\<open>descent_distance\<close> the segment leaves the descending state, its horizontal
  direction component is negated once, the vertical component and the position are
  untouched, and the progress accumulator is back at 0.
\<close>

theorem descent_completion:
  assumes "is_descending s"
    and "keeps_descending ts s"
    and "descend_progress (run_ticks ts s) + speed (run_ticks ts s) * 2 * dt
           \<ge> descent_distance (run_ticks ts s)"
  shows "is_descending (run_ticks ts s)
     \<and> direction (run_ticks ts s) = direction s
     \<and> \<not> is_descending (CentipedeSegment_update scene dt (run_ticks ts s))
     \<and> descend_progress (CentipedeSegment_update scene dt (run_ticks ts s)) = 0
     \<and> x_coord (direction (CentipedeSegment_update scene dt (run_ticks ts s)))
           = - x_coord (direction s)
     \<and> y_coord (direction (CentipedeSegment_update scene dt (run_ticks ts s)))
           = y_coord (direction s)
     \<and> position (CentipedeSegment_update scene dt (run_ticks ts s)) = position (run_ticks ts s)"
proof -
  from keeps_descending_run[OF assms(1,2)]
  have pre: "is_descending (run_ticks ts s)" "direction (run_ticks ts s) = direction s"
    by simp_all
  from descent_completes[OF pre(1) assms(3), of scene] pre show ?thesis by simp
qed

lemma descending_segment_tick:
  "CentipedeSegment_update None (1/10) descending_segment =
     descending_segment\<lparr>descend_progress := 10, position := Vector2 798 60\<rparr>"
  by (simp add: descending_segment_def start_descent_def CentipedeSegment_init_def
      CentipedeSegment_update_def handle_descent_def)

text \<open>
  A segment that started to descend at the right edge, with \<open>dt = 0.1\<close>: the first
  tick brings the progress to 10, the second completes the descent and turns the
  direction from left to right.
\<close>

theorem descent_completion_witness:
  "is_descending descending_segment
   \<and> keeps_descending [(None, 1/10)] descending_segment
   \<and> descent_distance (run_ticks [(None, 1/10)] descending_segment)
       \<le> descend_progress (run_ticks [(None, 1/10)] descending_segment)
          + speed (run_ticks [(None, 1/10)] descending_segment) * 2 * (1/10)
   \<and> x_coord (direction descending_segment) = - 1
   \<and> is_descending (run_ticks [(None, 1/10)] descending_segment)
   \<and> \<not> is_descending (run_ticks [(None, 1/10), (None, 1/10)] descending_segment)
   \<and> descend_progress (run_ticks [(None, 1/10), (None, 1/10)] descending_segment) = 0
   \<and> x_coord (direction (run_ticks [(None, 1/10), (None, 1/10)] descending_segment)) = 1"
proof -
  have a: "is_descending descending_segment"
    by (simp add: descending_segment_def start_descent_def)
  have b: "keeps_descending [(None, 1/10)] descending_segment"
    by (simp add: descending_segment_def start_descent_def CentipedeSegment_init_def)
  have c: "descent_distance (run_ticks [(None, 1/10)] descending_segment)
       \<le> descend_progress (run_ticks [(None, 1/10)] descending_segment)
          + speed (run_ticks [(None, 1/10)] descending_segment) * 2 * (1/10)"
    by (simp add: descending_segment_tick)
       (simp add: descending_segment_def start_descent_def CentipedeSegment_init_def)
  have d: "x_coord (direction descending_segment) = - 1"
    by (simp add: descending_segment_def start_descent_def)
  from descent_completion[OF a b c, of None] a b c d show ?thesis by simp
qed

text \<open>
  Claim C10. A tick of a descending segment never looks at the scene (no mushroom test)
  nor at the lateral bounds; while the incremented progress is below
  \<^verbatim>\<open>descent_distance\<close> it changes the progress accumulator and the vertical
  coordinate only, apart from the one-time player-area slowdown (the
  \<^verbatim>\<open>in_player_area\<close> mark and the speed factor 0.7).
\<close>

theorem descending_tick_frame:
  assumes "is_descending s"
  shows "CentipedeSegment_update scene dt s = CentipedeSegment_update scene' dt s
     \<and> (descend_progress s + speed s * 2 * dt < descent_distance s \<longrightarrow>
         CentipedeSegment_update scene dt s =
           s\<lparr>descend_progress := descend_progress s + speed s * 2 * dt,
             position := Vector2 (x_coord (position s))
                                 (y_coord (position s) + speed s * 2 * dt),
             in_player_area :=
               (in_player_area s \<or> y_coord (position s) + speed s * 2 * dt > 400),
             speed := (if y_coord (position s) + speed s * 2 * dt > 400 \<and> \<not> in_player_area s
                       then speed s * 0.7 else speed s)\<rparr>)"
  using descending_ignores_scene[OF assms] descent_continues[OF assms] by blast

text \<open>The descending segment next to a poisoned mushroom: the mushroom plays no part.\<close>

theorem descending_tick_frame_witness:
  "is_descending descending_segment
   \<and> descend_progress descending_segment + speed descending_segment * 2 * (1/10)
        < descent_distance descending_segment
   \<and> CentipedeSegment_update poisoned_scene (1/10) descending_segment
        = CentipedeSegment_update None (1/10) descending_segment
   \<and> CentipedeSegment_update poisoned_scene (1/10) descending_segment
        = descending_segment\<lparr>descend_progress := 10, position := Vector2 798 60\<rparr>"
proof -
  have a: "is_descending descending_segment"
    by (simp add: descending_segment_def start_descent_def)
  have b: "descend_progress descending_segment + speed descending_segment * 2 * (1/10)
        < descent_distance descending_segment"
    by (simp add: descending_segment_def start_descent_def CentipedeSegment_init_def)
  from descending_tick_frame[OF a, of poisoned_scene "1/10" None] a b descending_segment_tick
  show ?thesis by simp
qed

lemma poison_collision_tick:
  assumes "\<not> is_descending s"
    and "16 < x_coord (position s) + x_coord (direction s) * (speed s * dt)"
    and "x_coord (position s) + x_coord (direction s) * (speed s * dt) < 784"
    and "live_mushrooms objs = m # ms"
    and "distance_to (vec_add (position s) (vec_scale (direction s) (speed s * dt))) (position m) < 12"
    and "is_poisoned m"
  shows "CentipedeSegment_update (Some objs) dt s =
     (let s1 = s\<lparr>direction := Vector2 0 1, is_poisoned_descent := True,
                  is_descending := True, descend_progress := 0\<rparr>
      in if y_coord (position s) > 400 then enter_player_area s1 else s1)"
  using assms
  by (simp add: CentipedeSegment_update_def handle_horizontal_movement_def
      check_mushroom_collision_def start_descent_def start_poison_descent_def Let_def
      vec_add_def vec_scale_def)

text \<open>
  Claim C3. A moving segment whose prospective position overlaps a poisoned mushroom:
  \<^verbatim>\<open>_start_poison_descent\<close> clears \<^verbatim>\<open>is_descending\<close> ("Don't use normal descent
  behavior"), but \<^verbatim>\<open>_handle_horizontal_movement\<close> then calls \<^verbatim>\<open>_start_descent\<close>
  because the collision test returned True. The segment ends the tick in the normal
  descending state; the next tick advances the descent accumulator to 10, and the third
  tick completes the descent and clears the poison mark.
\<close>

theorem poison_collision_enters_normal_descent:
  "\<not> is_descending moving_segment
   \<and> CentipedeSegment_update poisoned_scene (1/10) moving_segment =
       moving_segment\<lparr>direction := Vector2 0 1, is_poisoned_descent := True,
                      is_descending := True, descend_progress := 0\<rparr>
   \<and> descend_progress (run_ticks [(poisoned_scene, 1/10), (poisoned_scene, 1/10)] moving_segment) = 10
   \<and> run_ticks [(poisoned_scene, 1/10), (poisoned_scene, 1/10), (poisoned_scene, 1/10)] moving_segment =
       moving_segment\<lparr>direction := Vector2 0 1, position := Vector2 100 60\<rparr>"
  by (simp add: moving_segment_def poisoned_scene_def CentipedeSegment_init_def
      Mushroom_init_def poison_def update_sprite_def
      CentipedeSegment_update_def handle_horizontal_movement_def handle_descent_def
      check_mushroom_collision_def start_descent_def start_poison_descent_def
      vec_add_def vec_scale_def distance_to_less_iff Let_def)

section \<open>Hits\<close>

lemma Mushroom_hit_destroyed:
  "is_destroyed m \<Longrightarrow> Mushroom_hit he (m, sc) = (m, sc)"
  by (simp add: Mushroom_hit_def)

lemma CentipedeSegment_hit_destroyed:
  "is_destroyed (segment_store g self) \<Longrightarrow> CentipedeSegment_hit self g = Inr g"
  by (simp add: CentipedeSegment_hit_def)

text \<open>
  Claim C7. \<^verbatim>\<open>Mushroom.hit\<close> and \<^verbatim>\<open>CentipedeSegment.hit\<close> return at once on a
  destroyed object (the two lemmas above); \<^verbatim>\<open>Flea.hit\<close> has no such test. A flea
  destroyed by its second hit takes a third one: the hit counter goes from 2 to 3 and
  the score from 200 to 400.
\<close>

theorem destroyed_flea_hit_again:
  "is_destroyed (fst (Flea_hit True (Flea_hit True (Flea_init 400, 0))))
   \<and> hits_taken (fst (Flea_hit True (Flea_hit True (Flea_init 400, 0)))) = 2
   \<and> snd (Flea_hit True (Flea_hit True (Flea_init 400, 0))) = 200
   \<and> hits_taken (fst (Flea_hit True (Flea_hit True (Flea_hit True (Flea_init 400, 0))))) = 3
   \<and> snd (Flea_hit True (Flea_hit True (Flea_hit True (Flea_init 400, 0)))) = 400"
  by (simp add: Flea_hit_def Flea_init_def destroy_def)

lemma Mushroom_hit_alive:
  assumes "\<not> is_destroyed m"
  shows "Mushroom_hit he (m, sc) =
     (if max_hits m \<le> hits m + 1
      then (destroy (m\<lparr>hits := hits m + 1\<rparr>), if he then sc + points m else sc)
      else (update_sprite (m\<lparr>hits := hits m + 1\<rparr>), sc))"
  using assms by (simp add: Mushroom_hit_def Let_def)

lemma mushroom_hits_destroyed:
  "is_destroyed m \<Longrightarrow> mushroom_hits n he (m, sc) = (m, sc)"
  by (induction n) (simp_all add: Mushroom_hit_destroyed)

lemma mushroom_hits_general:
  assumes "\<not> is_destroyed m" "hits m < max_hits m" "n \<le> max_hits m - hits m"
  shows "hits (fst (mushroom_hits n he (m, sc))) = hits m + n
     \<and> max_hits (fst (mushroom_hits n he (m, sc))) = max_hits m
     \<and> points (fst (mushroom_hits n he (m, sc))) = points m
     \<and> position (fst (mushroom_hits n he (m, sc))) = position m
     \<and> is_poisoned (fst (mushroom_hits n he (m, sc))) = is_poisoned m
     \<and> (is_destroyed (fst (mushroom_hits n he (m, sc))) \<longleftrightarrow> hits m + n = max_hits m)
     \<and> snd (mushroom_hits n he (m, sc)) =
         (if hits m + n = max_hits m \<and> he then sc + points m else sc)"
  using assms
proof (induction n arbitrary: m sc)
  case 0
  then show ?case by simp
next
  case (Suc n)
  show ?case
  proof (cases "max_hits m \<le> hits m + 1")
    case True
    with Suc.prems have n0: "n = 0" by simp
    with Suc.prems True show ?thesis
      by (auto simp: Mushroom_hit_alive destroy_def)
  next
    case False
    let ?m1 = "update_sprite (m\<lparr>hits := hits m + 1\<rparr>)"
    have step: "Mushroom_hit he (m, sc) = (?m1, sc)"
      using Suc.prems(1) False by (simp add: Mushroom_hit_alive)
    have m1: "\<not> is_destroyed ?m1" "hits ?m1 = hits m + 1" "max_hits ?m1 = max_hits m"
      "points ?m1 = points m" "position ?m1 = position m" "is_poisoned ?m1 = is_poisoned m"
      using Suc.prems(1) by (simp_all add: update_sprite_def)
    have "hits ?m1 < max_hits ?m1" "n \<le> max_hits ?m1 - hits ?m1"
      using False Suc.prems m1 by simp_all
    from Suc.IH[OF m1(1) this, of sc] m1 step show ?thesis by simp
  qed
qed

text \<open>
  Claim C5. For a live mushroom with \<open>hits < max_hits\<close>, after \<open>n\<close> further hits, \<open>n\<close> at
  most \<open>max_hits - hits\<close>: the hit counter has grown by exactly \<open>n\<close>; the mushroom is
  destroyed exactly when the counter has reached \<open>max_hits\<close>, and then (the scene
  being attached to the engine) the score has grown by the mushroom's points, otherwise
  the score is unchanged; and a mushroom that is still alive has \<open>hits < max_hits\<close>.
  A new mushroom has \<open>hits = 0\<close> and \<open>max_hits = 4\<close>, so four hits destroy it and fewer
  do not.
\<close>

theorem mushroom_durability:
  assumes "\<not> is_destroyed m" "hits m < max_hits m" "n \<le> max_hits m - hits m"
  shows "hits (fst (mushroom_hits n he (m, sc))) = hits m + n
     \<and> (is_destroyed (fst (mushroom_hits n he (m, sc))) \<longleftrightarrow> hits m + n = max_hits m)
     \<and> snd (mushroom_hits n he (m, sc)) =
         (if hits m + n = max_hits m \<and> he then sc + points m else sc)
     \<and> (\<not> is_destroyed (fst (mushroom_hits n he (m, sc))) \<longrightarrow>
          hits (fst (mushroom_hits n he (m, sc))) < max_hits (fst (mushroom_hits n he (m, sc))))"
proof -
  note g = mushroom_hits_general[OF assms, of he sc]
  have "\<not> is_destroyed (fst (mushroom_hits n he (m, sc))) \<longrightarrow>
          hits (fst (mushroom_hits n he (m, sc))) < max_hits (fst (mushroom_hits n he (m, sc)))"
    using g assms by auto
  with g show ?thesis by simp
qed

lemma Mushroom_init_fields:
  "\<not> is_destroyed (Mushroom_init px py)" "hits (Mushroom_init px py) = 0"
  "max_hits (Mushroom_init px py) = 4" "points (Mushroom_init px py) = 1"
  by (simp_all add: Mushroom_init_def update_sprite_def)

text \<open>A new mushroom: alive with three hits counted after three, destroyed for 1 point after four.\<close>

theorem mushroom_durability_witness:
  "\<not> is_destroyed (Mushroom_init 100 200)
   \<and> hits (Mushroom_init 100 200) < max_hits (Mushroom_init 100 200)
   \<and> max_hits (Mushroom_init 100 200) = 4
   \<and> hits (fst (mushroom_hits 3 True (Mushroom_init 100 200, 0))) = 3
   \<and> \<not> is_destroyed (fst (mushroom_hits 3 True (Mushroom_init 100 200, 0)))
   \<and> snd (mushroom_hits 3 True (Mushroom_init 100 200, 0)) = 0
   \<and> hits (fst (mushroom_hits 4 True (Mushroom_init 100 200, 0))) = 4
   \<and> is_destroyed (fst (mushroom_hits 4 True (Mushroom_init 100 200, 0)))
   \<and> snd (mushroom_hits 4 True (Mushroom_init 100 200, 0)) = 1"
  using mushroom_durability[of "Mushroom_init 100 200" 3 True 0]
        mushroom_durability[of "Mushroom_init 100 200" 4 True 0]
  by (simp add: Mushroom_init_fields)

lemma alive_invariant_ops:
  assumes "\<not> is_destroyed m \<longrightarrow> hits m < max_hits m"
  shows "\<not> is_destroyed (fst (Mushroom_hit he (m, sc))) \<longrightarrow>
           hits (fst (Mushroom_hit he (m, sc))) < max_hits (fst (Mushroom_hit he (m, sc)))"
    and "\<not> is_destroyed (poison m) \<longrightarrow> hits (poison m) < max_hits (poison m)"
    and "\<not> is_destroyed (heal m) \<longrightarrow> hits (heal m) < max_hits (heal m)"
  using assms
  by (auto simp: Mushroom_hit_def poison_def heal_def update_sprite_def destroy_def Let_def)

section \<open>Levels and spawn rates\<close>

lemma add_object_fields [simp]:
  "flea_spawn_rate (add_object obj g) = flea_spawn_rate g"
  "spider_spawn_rate (add_object obj g) = spider_spawn_rate g"
  "scorpion_spawn_rate (add_object obj g) = scorpion_spawn_rate g"
  "flea_spawn_timer (add_object obj g) = flea_spawn_timer g"
  "spider_spawn_timer (add_object obj g) = spider_spawn_timer g"
  "scorpion_spawn_timer (add_object obj g) = scorpion_spawn_timer g"
  "level (add_object obj g) = level g"
  "game_objects (add_object obj g) = game_objects g @ [obj]"
  by (simp_all add: add_object_def)

lemma spawn_segment_keeps:
  "flea_spawn_rate (spawn_segment sx i g) = flea_spawn_rate g"
  "spider_spawn_rate (spawn_segment sx i g) = spider_spawn_rate g"
  "scorpion_spawn_rate (spawn_segment sx i g) = scorpion_spawn_rate g"
  "level (spawn_segment sx i g) = level g"
  by (simp_all add: spawn_segment_def Let_def)

lemma fold_spawn_segment_keeps:
  "flea_spawn_rate (fold (spawn_segment sx) is g) = flea_spawn_rate g
   \<and> spider_spawn_rate (fold (spawn_segment sx) is g) = spider_spawn_rate g
   \<and> scorpion_spawn_rate (fold (spawn_segment sx) is g) = scorpion_spawn_rate g
   \<and> level (fold (spawn_segment sx) is g) = level g"
  by (induction "is" arbitrary: g) (simp_all add: spawn_segment_keeps)

lemma spawn_centipede_keeps:
  "flea_spawn_rate (spawn_centipede coin g) = flea_spawn_rate g"
  "spider_spawn_rate (spawn_centipede coin g) = spider_spawn_rate g"
  "scorpion_spawn_rate (spawn_centipede coin g) = scorpion_spawn_rate g"
  "level (spawn_centipede coin g) = level g"
  by (simp_all add: spawn_centipede_def fold_spawn_segment_keeps)

lemma next_level_rates:
  "flea_spawn_rate (next_level coin g) = max 5 (flea_spawn_rate g - 0.5)"
  "spider_spawn_rate (next_level coin g) = max 10 (spider_spawn_rate g - 1)"
  "scorpion_spawn_rate (next_level coin g) = max 15 (scorpion_spawn_rate g - 2)"
  "level (next_level coin g) = level g + 1"
  by (simp_all add: next_level_def Let_def spawn_centipede_keeps)

lemma clamp_step:
  fixes a d fl n :: real
  assumes "0 \<le> d" "0 \<le> n"
  shows "max fl (max fl (a - d) - n * d) = max fl (a - (n + 1) * d)"
proof -
  have nd: "0 \<le> n * d" using assms by simp
  have e: "a - (n + 1) * d = a - d - n * d" by (simp add: algebra_simps)
  show ?thesis unfolding e using nd by (simp add: max_def)
qed

lemma clamp_mono:
  fixes a d fl :: real
  assumes "0 \<le> d" "n \<le> (n'::nat)"
  shows "max fl (a - real n' * d) \<le> max fl (a - real n * d)"
proof -
  have "real n * d \<le> real n' * d" using assms by (simp add: mult_right_mono)
  then show ?thesis by (simp add: max_def)
qed

lemma next_levels_rates:
  assumes "5 \<le> flea_spawn_rate g" "10 \<le> spider_spawn_rate g" "15 \<le> scorpion_spawn_rate g"
  shows "flea_spawn_rate (next_levels coins g) = max 5 (flea_spawn_rate g - real (length coins) * 0.5)
    \<and> spider_spawn_rate (next_levels coins g) = max 10 (spider_spawn_rate g - real (length coins) * 1)
    \<and> scorpion_spawn_rate (next_levels coins g) = max 15 (scorpion_spawn_rate g - real (length coins) * 2)
    \<and> level (next_levels coins g) = level g + int (length coins)"
  using assms
proof (induction coins arbitrary: g)
  case Nil
  then show ?case by simp
next
  case (Cons c cs)
  have pre: "5 \<le> flea_spawn_rate (next_level c g)" "10 \<le> spider_spawn_rate (next_level c g)"
    "15 \<le> scorpion_spawn_rate (next_level c g)"
    by (simp_all add: next_level_rates)
  have n: "real (length (c # cs)) = real (length cs) + 1" by simp
  from Cons.IH[OF pre]
  have "flea_spawn_rate (next_levels (c # cs) g)
          = max 5 (max 5 (flea_spawn_rate g - 0.5) - real (length cs) * 0.5)"
    and "spider_spawn_rate (next_levels (c # cs) g)
          = max 10 (max 10 (spider_spawn_rate g - 1) - real (length cs) * 1)"
    and "scorpion_spawn_rate (next_levels (c # cs) g)
          = max 15 (max 15 (scorpion_spawn_rate g - 2) - real (length cs) * 2)"
    and "level (next_levels (c # cs) g) = level g + int (length (c # cs))"
    by (simp_all add: next_level_rates)
  then show ?case
    unfolding n by (simp only: clamp_step[of "0.5"] clamp_step[of 1] clamp_step[of 2]
        of_nat_0_le_iff zero_le_numeral zero_le_one simp_thms)
qed

lemma init_rates:
  "flea_spawn_rate CentipedeGame_init = 8" "spider_spawn_rate CentipedeGame_init = 15"
  "scorpion_spawn_rate CentipedeGame_init = 25" "level CentipedeGame_init = 1"
  by (simp_all add: CentipedeGame_init_def)

lemma rates_at_wave:
  "flea_spawn_rate (next_levels coins CentipedeGame_init) = max 5 (8 - real (length coins) * 0.5)"
  "spider_spawn_rate (next_levels coins CentipedeGame_init) = max 10 (15 - real (length coins) * 1)"
  "scorpion_spawn_rate (next_levels coins CentipedeGame_init) = max 15 (25 - real (length coins) * 2)"
  "level (next_levels coins CentipedeGame_init) = 1 + int (length coins)"
  using next_levels_rates[of CentipedeGame_init coins] by (simp_all add: init_rates)

text \<open>
  Claim C6. Starting from the initial rates 8, 15 and 25 at level 1, after any number of
  completed levels each rate is the clamped linear function of the level: for the flea
  \<open>max 5 (8 - (level - 1) * 0.5)\<close>, which is \<open>max 5 (8.5 - level * 0.5)\<close>; between two
  levels the later one has the smaller or equal rate, never below the floor.
\<close>

theorem wave_spawn_rates:
  "flea_spawn_rate (next_levels coins CentipedeGame_init)
      = max 5 (8 - (real_of_int (level (next_levels coins CentipedeGame_init)) - 1) * 0.5)
   \<and> flea_spawn_rate (next_levels coins CentipedeGame_init)
      = max 5 (8.5 - real_of_int (level (next_levels coins CentipedeGame_init)) * 0.5)
   \<and> spider_spawn_rate (next_levels coins CentipedeGame_init)
      = max 10 (16 - real_of_int (level (next_levels coins CentipedeGame_init)) * 1)
   \<and> scorpion_spawn_rate (next_levels coins CentipedeGame_init)
      = max 15 (27 - real_of_int (level (next_levels coins CentipedeGame_init)) * 2)
   \<and> level (next_levels coins CentipedeGame_init) = 1 + int (length coins)
   \<and> (level (next_levels coins CentipedeGame_init) < level (next_levels coins' CentipedeGame_init) \<longrightarrow>
        flea_spawn_rate (next_levels coins' CentipedeGame_init)
          \<le> flea_spawn_rate (next_levels coins CentipedeGame_init)
        \<and> 5 \<le> flea_spawn_rate (next_levels coins' CentipedeGame_init)
        \<and> spider_spawn_rate (next_levels coins' CentipedeGame_init)
          \<le> spider_spawn_rate (next_levels coins CentipedeGame_init)
        \<and> 10 \<le> spider_spawn_rate (next_levels coins' CentipedeGame_init)
        \<and> scorpion_spawn_rate (next_levels coins' CentipedeGame_init)
          \<le> scorpion_spawn_rate (next_levels coins CentipedeGame_init)
        \<and> 15 \<le> scorpion_spawn_rate (next_levels coins' CentipedeGame_init))"
proof -
  let ?n = "real (length coins)"
  have lv: "real_of_int (level (next_levels coins CentipedeGame_init)) = 1 + ?n"
    by (simp add: rates_at_wave)
  have f1: "8 - (1 + ?n - 1) * 0.5 = 8 - ?n * 0.5" by simp
  have f2: "8.5 - (1 + ?n) * 0.5 = 8 - ?n * 0.5" by argo
  have s1: "16 - (1 + ?n) * 1 = 15 - ?n * 1" by simp
  have c1: "27 - (1 + ?n) * 2 = 25 - ?n * 2" by argo
  have mono: "length coins < length coins' \<Longrightarrow>
        flea_spawn_rate (next_levels coins' CentipedeGame_init)
          \<le> flea_spawn_rate (next_levels coins CentipedeGame_init)
        \<and> spider_spawn_rate (next_levels coins' CentipedeGame_init)
          \<le> spider_spawn_rate (next_levels coins CentipedeGame_init)
        \<and> scorpion_spawn_rate (next_levels coins' CentipedeGame_init)
          \<le> scorpion_spawn_rate (next_levels coins CentipedeGame_init)"
  proof -
    assume "length coins < length coins'"
    then have le: "length coins \<le> length coins'" by simp
    have z: "(0::real) \<le> 0.5" "(0::real) \<le> 1" "(0::real) \<le> 2" by simp_all
    show ?thesis
      unfolding rates_at_wave
      using clamp_mono[OF z(1) le, of 5 8] clamp_mono[OF z(2) le, of 10 15]
        clamp_mono[OF z(3) le, of 15 25]
      by blast
  qed
  have floors: "5 \<le> flea_spawn_rate (next_levels coins' CentipedeGame_init)"
    "10 \<le> spider_spawn_rate (next_levels coins' CentipedeGame_init)"
    "15 \<le> scorpion_spawn_rate (next_levels coins' CentipedeGame_init)"
    unfolding rates_at_wave by simp_all
  have lt: "level (next_levels coins CentipedeGame_init) < level (next_levels coins' CentipedeGame_init)
      \<longleftrightarrow> length coins < length coins'"
    by (simp add: rates_at_wave)
  show ?thesis
    unfolding lv f1 f2 s1 c1 lt using mono floors by (simp add: rates_at_wave)
qed

text \<open>Levels 1, 4 and 7: flea rates 8, 6.5 and 5.\<close>

theorem wave_spawn_rates_witness:
  "level (next_levels [] CentipedeGame_init) = 1
   \<and> flea_spawn_rate (next_levels [] CentipedeGame_init) = 8
   \<and> level (next_levels [True, False, True] CentipedeGame_init) = 4
   \<and> flea_spawn_rate (next_levels [True, False, True] CentipedeGame_init) = 6.5
   \<and> level (next_levels [True, False, True, True, False, True] CentipedeGame_init) = 7
   \<and> flea_spawn_rate (next_levels [True, False, True, True, False, True] CentipedeGame_init) = 5
   \<and> level (next_levels [True, False, True] CentipedeGame_init)
        < level (next_levels [True, False, True, True, False, True] CentipedeGame_init)
   \<and> flea_spawn_rate (next_levels [True, False, True, True, False, True] CentipedeGame_init)
        \<le> flea_spawn_rate (next_levels [True, False, True] CentipedeGame_init)"
  using wave_spawn_rates[of "[]" "[]"]
        wave_spawn_rates[of "[True, False, True]" "[True, False, True, True, False, True]"]
        wave_spawn_rates[of "[True, False, True, True, False, True]" "[]"]
  by simp

section \<open>Spawn timers\<close>

text \<open>
  Claim C8. One timer stage: every timer grows by \<open>dt\<close>; a timer that has reached its
  rate is reset to 0 and its enemy is added to the scene, except that the flea is added
  only when fewer than three live mushrooms lie in the player area; the flea timer is
  reset whether or not the flea was added.
\<close>

theorem spawn_timers_reset:
  "flea_spawn_timer (update_spawn_timers dt d g) =
     (if flea_spawn_rate g \<le> flea_spawn_timer g + dt then 0 else flea_spawn_timer g + dt)
   \<and> spider_spawn_timer (update_spawn_timers dt d g) =
     (if spider_spawn_rate g \<le> spider_spawn_timer g + dt then 0 else spider_spawn_timer g + dt)
   \<and> scorpion_spawn_timer (update_spawn_timers dt d g) =
     (if scorpion_spawn_rate g \<le> scorpion_spawn_timer g + dt then 0 else scorpion_spawn_timer g + dt)
   \<and> game_objects (update_spawn_timers dt d g) =
       game_objects g
       @ (if flea_spawn_rate g \<le> flea_spawn_timer g + dt
             \<and> length (player_area_mushrooms (game_objects g)) < 3
          then [FleaObj (Flea_init (flea_x d))] else [])
       @ (if spider_spawn_rate g \<le> spider_spawn_timer g + dt
          then [SpiderObj (Spider_init (spider_side d) (spider_y d))] else [])
       @ (if scorpion_spawn_rate g \<le> scorpion_spawn_timer g + dt
          then [ScorpionObj (Scorpion_init (scorpion_side d) (scorpion_y d))] else [])
   \<and> flea_spawn_rate (update_spawn_timers dt d g) = flea_spawn_rate g
   \<and> spider_spawn_rate (update_spawn_timers dt d g) = spider_spawn_rate g
   \<and> scorpion_spawn_rate (update_spawn_timers dt d g) = scorpion_spawn_rate g"
  by (simp add: update_spawn_timers_def spawn_enemies_def spawn_flea_def spawn_spider_def
      spawn_scorpion_def Let_def)

text \<open>
  Three mushrooms in the player area, the flea and scorpion timers due: no flea appears,
  both timers are back at 0, a scorpion is added, the spider timer keeps counting.
\<close>

theorem spawn_timers_reset_witness:
  "length (player_area_mushrooms (game_objects crowded_game)) = 3
   \<and> flea_spawn_rate crowded_game \<le> flea_spawn_timer crowded_game + 1/10
   \<and> flea_spawn_timer (update_spawn_timers (1/10) some_draws crowded_game) = 0
   \<and> spider_spawn_timer (update_spawn_timers (1/10) some_draws crowded_game) = 3.1
   \<and> scorpion_spawn_timer (update_spawn_timers (1/10) some_draws crowded_game) = 0
   \<and> game_objects (update_spawn_timers (1/10) some_draws crowded_game) =
       game_objects crowded_game @ [ScorpionObj (Scorpion_init (- 1) 200)]"
  using spawn_timers_reset[of "1/10" some_draws crowded_game]
  by (simp add: crowded_game_def some_draws_def CentipedeGame_init_def player_area_mushrooms_def
      Mushroom_init_def update_sprite_def)

section \<open>Python list operations\<close>

lemma list_index_remove_member:
  "v \<in> set xs \<Longrightarrow>
     \<exists>i. list_index xs v = Inr i \<and> i < length xs \<and> xs ! i = v \<and> v \<notin> set (take i xs)
       \<and> list_remove xs v = Inr (take i xs @ drop (Suc i) xs)"
proof (induction xs)
  case Nil
  then show ?case by simp
next
  case (Cons u us)
  show ?case
  proof (cases "u = v")
    case True
    then show ?thesis by simp
  next
    case False
    with Cons.prems have "v \<in> set us" by simp
    from Cons.IH[OF this] obtain i where
      "list_index us v = Inr i" "i < length us" "us ! i = v" "v \<notin> set (take i us)"
      "list_remove us v = Inr (take i us @ drop (Suc i) us)" by blast
    with False show ?thesis by simp
  qed
qed

lemma list_index_nth_distinct:
  "distinct xs \<Longrightarrow> k < length xs \<Longrightarrow> list_index xs (xs ! k) = Inr k"
proof (induction xs arbitrary: k)
  case Nil
  then show ?case by simp
next
  case (Cons u us)
  show ?case
  proof (cases k)
    case 0
    then show ?thesis by simp
  next
    case (Suc j)
    with Cons.prems have "j < length us" "distinct us" "us ! j \<noteq> u"
      by auto
    with Cons.IH[of j] Suc show ?thesis by auto
  qed
qed

section \<open>The split\<close>

lemma promote_head_fields [simp]:
  "centipede_segments (promote_head r g) = centipede_segments g"
  "is_head (segment_store (promote_head r g) q) \<longleftrightarrow> q = r \<or> is_head (segment_store g q)"
  by (simp_all add: promote_head_def)

lemma split_loop_body_eq:
  "split_loop_body k n g =
     (if 0 < k \<and> n = k - 1 \<and> n < length (centipede_segments g)
      then promote_head (centipede_segments g ! n) g else g)"
proof -
  have eq: "(int n = int k - 1) = (0 < k \<and> n = k - 1)" by auto
  show ?thesis by (simp add: split_loop_body_def eq)
qed

lemma split_loop_fold:
  "fold (split_loop_body k) [0..<n] g =
     (if 0 < k \<and> k - 1 < n \<and> k - 1 < length (centipede_segments g)
      then promote_head (centipede_segments g ! (k - 1)) g else g)"
proof (induction n)
  case 0
  then show ?case by simp
next
  case (Suc n)
  have "fold (split_loop_body k) [0..<Suc n] g =
          split_loop_body k n (fold (split_loop_body k) [0..<n] g)"
    by simp
  also have "\<dots> = split_loop_body k n
      (if 0 < k \<and> k - 1 < n \<and> k - 1 < length (centipede_segments g)
       then promote_head (centipede_segments g ! (k - 1)) g else g)"
    by (simp only: Suc.IH)
  also have "\<dots> = (if 0 < k \<and> k - 1 < Suc n \<and> k - 1 < length (centipede_segments g)
      then promote_head (centipede_segments g ! (k - 1)) g else g)"
    unfolding split_loop_body_eq by (auto simp: less_Suc_eq)
  finally show ?case .
qed

lemma case_list_hd: "(case xs of [] \<Rightarrow> a | x # _ \<Rightarrow> f x) = (if xs = [] then a else f (hd xs))"
  by (cases xs) simp_all

lemma split_unfold:
  assumes "list_index (centipede_segments g) v = Inr k" "v \<in> set (centipede_segments g)"
    and "list_remove (centipede_segments g) v = Inr rest"
  shows "split_centipede_at_segment v g =
     Inr (let g2 = (if 0 < k
                    then fold (split_loop_body k) [0..<k] (g\<lparr>centipede_segments := rest\<rparr>)
                    else g\<lparr>centipede_segments := rest\<rparr>)
          in if centipede_segments g2 = [] then g2
             else if \<not> is_head (segment_store g2 (hd (centipede_segments g2)))
                  then promote_head (hd (centipede_segments g2)) g2 else g2)"
  using assms by (simp add: split_centipede_at_segment_def Let_def case_list_hd)

lemma split_at_index:
  assumes "list_index (centipede_segments g) v = Inr k" "v \<in> set (centipede_segments g)"
  shows "\<exists>g'. split_centipede_at_segment v g = Inr g'
     \<and> centipede_segments g' = take k (centipede_segments g) @ drop (Suc k) (centipede_segments g)
     \<and> (\<forall>r. is_head (segment_store g' r) \<longleftrightarrow>
           is_head (segment_store g r)
           \<or> (0 < k \<and> r = centipede_segments g' ! (k - 1))
           \<or> (centipede_segments g' \<noteq> [] \<and> r = hd (centipede_segments g')))"
proof -
  define rest where "rest = take k (centipede_segments g) @ drop (Suc k) (centipede_segments g)"
  define g1 where "g1 = g\<lparr>centipede_segments := rest\<rparr>"
  define g2 where "g2 = (if 0 < k then promote_head (rest ! (k - 1)) g1 else g1)"
  define g3 where "g3 = (if rest \<noteq> [] \<and> \<not> is_head (segment_store g2 (hd rest))
                         then promote_head (hd rest) g2 else g2)"
  from list_index_remove_member[OF assms(2)] assms(1)
  have k: "k < length (centipede_segments g)"
    and rm: "list_remove (centipede_segments g) v = Inr rest"
    unfolding rest_def by auto
  have len: "length rest = length (centipede_segments g) - 1" using k by (simp add: rest_def)
  have k1: "0 < k \<Longrightarrow> k - 1 < length rest" using k len by linarith
  have g1: "centipede_segments g1 = rest" "segment_store g1 = segment_store g"
    by (simp_all add: g1_def)
  have loop: "(if 0 < k then fold (split_loop_body k) [0..<k] g1 else g1) = g2"
    using k1 by (simp add: split_loop_fold g2_def g1)
  have g2cs: "centipede_segments g2 = rest"
    by (simp add: g2_def g1)
  have g2hd: "is_head (segment_store g2 r) \<longleftrightarrow>
                is_head (segment_store g r) \<or> (0 < k \<and> r = rest ! (k - 1))" for r
    by (cases "0 < k") (simp_all add: g2_def g1 disj_commute)
  have g3cs: "centipede_segments g3 = rest"
    by (simp add: g3_def g2cs)
  have g3hd: "is_head (segment_store g3 r) \<longleftrightarrow>
        is_head (segment_store g r) \<or> (0 < k \<and> r = rest ! (k - 1)) \<or> (rest \<noteq> [] \<and> r = hd rest)" for r
  proof (cases "rest \<noteq> [] \<and> \<not> is_head (segment_store g2 (hd rest))")
    case True
    then have "g3 = promote_head (hd rest) g2" by (simp add: g3_def)
    then have "is_head (segment_store g3 r) \<longleftrightarrow> r = hd rest \<or> is_head (segment_store g2 r)"
      by simp
    with True show ?thesis unfolding g2hd by blast
  next
    case False
    then have "g3 = g2" unfolding g3_def by (simp only: if_False)
    moreover from False have "rest \<noteq> [] \<Longrightarrow> is_head (segment_store g2 (hd rest))" by blast
    ultimately show ?thesis using g2hd by blast
  qed
  have "split_centipede_at_segment v g =
     Inr (let g2 = (if 0 < k
                    then fold (split_loop_body k) [0..<k] g1
                    else g1)
          in if centipede_segments g2 = [] then g2
             else if \<not> is_head (segment_store g2 (hd (centipede_segments g2)))
                  then promote_head (hd (centipede_segments g2)) g2 else g2)"
    unfolding g1_def by (rule split_unfold[OF assms rm])
  also have "\<dots> = Inr g3"
    unfolding loop Let_def g2cs g3_def by simp
  finally have res: "split_centipede_at_segment v g = Inr g3" .
  have "centipede_segments g3 = rest
     \<and> (\<forall>r. is_head (segment_store g3 r) \<longleftrightarrow>
           is_head (segment_store g r)
           \<or> (0 < k \<and> r = centipede_segments g3 ! (k - 1))
           \<or> (centipede_segments g3 \<noteq> [] \<and> r = hd (centipede_segments g3)))"
    unfolding g3cs using g3hd by blast
  with res show ?thesis unfolding rest_def by blast
qed

lemma upt_12: "[0..<12] = [0, 1, 2, 3, 4, 5, 6, 7, 8, 9, 10, 11]"
  by (simp add: upt_rec)

lemma fresh_game_segments:
  "centipede_segments fresh_game = [0, 1, 2, 3, 4, 5, 6, 7, 8, 9, 10, 11]"
  by (simp add: fresh_game_def spawn_centipede_def CentipedeGame_init_def upt_12
      spawn_segment_def add_object_def Let_def)

lemma fresh_game_heads:
  "map (\<lambda>r. is_head (segment_store fresh_game r)) [0, 1, 2, 3, 4, 5, 6, 7, 8, 9, 10, 11] =
     [True, False, False, False, False, False, False, False, False, False, False, False]"
  by (simp add: fresh_game_def spawn_centipede_def CentipedeGame_init_def upt_12
      spawn_segment_def add_object_def Let_def CentipedeSegment_init_def)

text \<open>
  Claim C9. Asking to split at a segment that is not in \<^verbatim>\<open>centipede_segments\<close>
  returns normally and leaves the whole engine state, hence the chain and every head
  flag, as it was.
\<close>

theorem split_absent_segment_is_noop:
  "v \<notin> set (centipede_segments g) \<Longrightarrow> split_centipede_at_segment v g = Inr g"
  by (simp add: split_centipede_at_segment_def)

text \<open>No segment object 99 exists in the first centipede (objects 0 to 11).\<close>

theorem split_absent_segment_is_noop_witness:
  "99 \<notin> set (centipede_segments fresh_game)
   \<and> split_centipede_at_segment 99 fresh_game = Inr fresh_game"
proof -
  have a: "99 \<notin> set (centipede_segments fresh_game)"
    by (simp add: fresh_game_segments)
  from split_absent_segment_is_noop[OF a] a show ?thesis by simp
qed

lemma split_never_raises: "\<exists>g'. split_centipede_at_segment v g = Inr g'"
proof (cases "v \<in> set (centipede_segments g)")
  case True
  from list_index_remove_member[OF True] obtain k where
    "list_index (centipede_segments g) v = Inr k" by blast
  from split_at_index[OF this True] show ?thesis by blast
next
  case False
  then show ?thesis by (simp add: split_centipede_at_segment_def)
qed

section \<open>Splitting: what remains and who is head\<close>

lemma nth_decomp:
  assumes "k < length (cs :: 'a list)"
  shows "cs = take k cs @ cs ! k # drop (Suc k) cs"
  using assms by (rule id_take_nth_drop)

text \<open>
  Claim C2. In a chain of distinct segment objects, splitting at the segment of index
  \<open>k\<close> returns normally and removes exactly that element: the first \<open>k\<close> elements of the
  new list are the old elements of index below \<open>k\<close>, the rest are the old elements of
  index above \<open>k\<close> (there are \<open>N - 1 - k\<close> of them), and \<open>N - 1\<close> segments remain.
\<close>

theorem split_removes_hit_element:
  assumes "distinct (centipede_segments g)" "k < length (centipede_segments g)"
  shows "\<exists>g'. split_centipede_at_segment (centipede_segments g ! k) g = Inr g'
     \<and> centipede_segments g' = take k (centipede_segments g) @ drop (Suc k) (centipede_segments g)
     \<and> take k (centipede_segments g') = take k (centipede_segments g)
     \<and> drop k (centipede_segments g') = drop (Suc k) (centipede_segments g)
     \<and> length (take k (centipede_segments g')) = k
     \<and> length (drop k (centipede_segments g')) = length (centipede_segments g) - 1 - k
     \<and> length (centipede_segments g') = length (centipede_segments g) - 1
     \<and> set (centipede_segments g') = set (centipede_segments g) - {centipede_segments g ! k}"
proof -
  define cs where "cs = centipede_segments g"
  have d: "distinct cs" and k: "k < length cs" using assms by (simp_all add: cs_def)
  have idx: "list_index cs (cs ! k) = Inr k"
    by (rule list_index_nth_distinct[OF d k])
  have mem: "cs ! k \<in> set cs" using k by simp
  from split_at_index[of g "cs ! k" k] idx mem obtain g' where
    g': "split_centipede_at_segment (cs ! k) g = Inr g'"
        "centipede_segments g' = take k cs @ drop (Suc k) cs"
    unfolding cs_def by blast
  have tk: "length (take k cs) = k" using k by simp
  have "distinct (take k cs @ cs ! k # drop (Suc k) cs)"
    using d nth_decomp[OF k] by simp
  then have notin: "cs ! k \<notin> set (take k cs)" "cs ! k \<notin> set (drop (Suc k) cs)"
    by simp_all
  have "set cs = set (take k cs @ cs ! k # drop (Suc k) cs)"
    using nth_decomp[OF k] by simp
  then have "set cs = insert (cs ! k) (set (take k cs) \<union> set (drop (Suc k) cs))"
    by simp
  with notin have sets: "set (take k cs @ drop (Suc k) cs) = set cs - {cs ! k}"
    by auto
  have t: "take k (take k cs @ drop (Suc k) cs) = take k cs"
    and dr: "drop k (take k cs @ drop (Suc k) cs) = drop (Suc k) cs"
    using tk by simp_all
  have l1: "length (drop (Suc k) cs) = length cs - 1 - k" by simp
  have l2: "length (take k cs @ drop (Suc k) cs) = length cs - 1" using k by simp
  show ?thesis
    unfolding cs_def[symmetric]
    by (rule exI[of _ g']) (simp only: g' t dr tk l1 l2 sets simp_thms)
qed

lemma fresh_game_distinct: "distinct (centipede_segments fresh_game)"
  by (simp add: fresh_game_segments)

text \<open>The first centipede, hit at index 5: five segments before the gap, six after.\<close>

theorem split_removes_hit_element_witness:
  "distinct (centipede_segments fresh_game)
   \<and> 5 < length (centipede_segments fresh_game)
   \<and> centipede_segments fresh_game ! 5 = 5
   \<and> (\<exists>g'. split_centipede_at_segment 5 fresh_game = Inr g'
         \<and> centipede_segments g' = [0, 1, 2, 3, 4, 6, 7, 8, 9, 10, 11]
         \<and> take 5 (centipede_segments g') = [0, 1, 2, 3, 4]
         \<and> drop 5 (centipede_segments g') = [6, 7, 8, 9, 10, 11])"
proof -
  have a: "distinct (centipede_segments fresh_game)" by (rule fresh_game_distinct)
  have b: "5 < length (centipede_segments fresh_game)" by (simp add: fresh_game_segments)
  have c: "centipede_segments fresh_game ! 5 = 5" by (simp add: fresh_game_segments)
  from split_removes_hit_element[OF a b] obtain g' where
    "split_centipede_at_segment (centipede_segments fresh_game ! 5) fresh_game = Inr g'"
    "centipede_segments g' =
       take 5 (centipede_segments fresh_game) @ drop (Suc 5) (centipede_segments fresh_game)"
    by blast
  then have "split_centipede_at_segment 5 fresh_game = Inr g'
         \<and> centipede_segments g' = [0, 1, 2, 3, 4, 6, 7, 8, 9, 10, 11]
         \<and> take 5 (centipede_segments g') = [0, 1, 2, 3, 4]
         \<and> drop 5 (centipede_segments g') = [6, 7, 8, 9, 10, 11]"
    by (simp add: c fresh_game_segments)
  then have "\<exists>g'. split_centipede_at_segment 5 fresh_game = Inr g'
         \<and> centipede_segments g' = [0, 1, 2, 3, 4, 6, 7, 8, 9, 10, 11]
         \<and> take 5 (centipede_segments g') = [0, 1, 2, 3, 4]
         \<and> drop 5 (centipede_segments g') = [6, 7, 8, 9, 10, 11]"
    by blast
  with a b c show ?thesis by blast
qed

lemma fresh_game_head_iff:
  "r \<in> set [0, 1, 2, 3, 4, 5, 6, 7, 8, 9, 10, 11] \<Longrightarrow>
     is_head (segment_store fresh_game r) \<longleftrightarrow> r = 0"
  using fresh_game_heads by auto

text \<open>
  Claim C1 fails as stated. The first centipede has its only head at index 0. After the
  hit at index 5 the segments before the gap carry two head flags (the old head at index
  0, which nothing clears, and the promoted segment at index 4).
\<close>

theorem split_leaves_two_heads_before_hit:
  "\<not> isl (split_centipede_at_segment 5 fresh_game)
   \<and> centipede_segments (projr (split_centipede_at_segment 5 fresh_game))
        = [0, 1, 2, 3, 4, 6, 7, 8, 9, 10, 11]
   \<and> count_heads fresh_game (centipede_segments fresh_game) = 1
   \<and> count_heads (projr (split_centipede_at_segment 5 fresh_game))
        (take 5 (centipede_segments (projr (split_centipede_at_segment 5 fresh_game)))) = 2
   \<and> count_heads (projr (split_centipede_at_segment 5 fresh_game))
        (drop 5 (centipede_segments (projr (split_centipede_at_segment 5 fresh_game)))) = 0"
proof -
  have idx: "list_index (centipede_segments fresh_game) 5 = Inr 5"
    by (simp add: fresh_game_segments)
  have mem: "5 \<in> set (centipede_segments fresh_game)"
    by (simp add: fresh_game_segments)
  from split_at_index[OF idx mem] obtain g' where
    res: "split_centipede_at_segment 5 fresh_game = Inr g'"
    and cs: "centipede_segments g' = [0, 1, 2, 3, 4, 6, 7, 8, 9, 10, 11]"
    and hd: "\<And>r. is_head (segment_store g' r) \<longleftrightarrow>
           is_head (segment_store fresh_game r)
           \<or> (0 < (5::nat) \<and> r = centipede_segments g' ! (5 - 1))
           \<or> (centipede_segments g' \<noteq> [] \<and> r = hd (centipede_segments g'))"
    by (auto simp: fresh_game_segments)
  have hd': "is_head (segment_store g' r) \<longleftrightarrow> r = 0 \<or> r = 4"
    if "r \<in> set [0, 1, 2, 3, 4, 5, 6, 7, 8, 9, 10, 11]" for r
    using fresh_game_head_iff[OF that] unfolding hd cs by auto
  have before: "count_heads fresh_game (centipede_segments fresh_game) = 1"
    by (simp add: count_heads_def fresh_game_segments fresh_game_head_iff)
  have c1: "count_heads g' (take 5 (centipede_segments g')) = 2"
    by (simp add: count_heads_def cs hd')
  have c2: "count_heads g' (drop 5 (centipede_segments g')) = 0"
    by (simp add: count_heads_def cs hd')
  show ?thesis unfolding res using cs before c1 c2 by simp
qed

lemma count_heads_pos:
  "r \<in> set rs \<Longrightarrow> is_head (segment_store g r) \<Longrightarrow> 1 \<le> count_heads g rs"
proof -
  assume "r \<in> set rs" "is_head (segment_store g r)"
  then have "filter (\<lambda>r. is_head (segment_store g r)) rs \<noteq> []"
    by (auto simp: filter_empty_conv)
  then show ?thesis unfolding count_heads_def
    by (cases "filter (\<lambda>r. is_head (segment_store g r)) rs") simp_all
qed

lemma count_heads_card:
  "distinct rs \<Longrightarrow> count_heads g rs = card {r \<in> set rs. is_head (segment_store g r)}"
proof -
  assume "distinct rs"
  then have "count_heads g rs = card ({r. is_head (segment_store g r)} \<inter> set rs)"
    unfolding count_heads_def by (rule distinct_length_filter)
  moreover have "{r. is_head (segment_store g r)} \<inter> set rs = {r \<in> set rs. is_head (segment_store g r)}"
    by blast
  ultimately show ?thesis by simp
qed

lemma split_head_counts:
  assumes d: "distinct cs" and k: "k < length cs"
    and fresh: "\<forall>i<length cs. is_head (segment_store g (cs ! i)) \<longleftrightarrow> i = 0"
    and cs': "centipede_segments g' = take k cs @ drop (Suc k) cs"
    and H: "\<And>r. is_head (segment_store g' r) \<longleftrightarrow>
           is_head (segment_store g r)
           \<or> (0 < k \<and> r = centipede_segments g' ! (k - 1))
           \<or> (centipede_segments g' \<noteq> [] \<and> r = hd (centipede_segments g'))"
  shows "count_heads g' (take k (centipede_segments g')) = min k 2
     \<and> (k = 0 \<longrightarrow> count_heads g' (drop k (centipede_segments g')) = min 1 (length (centipede_segments g')))"
proof (cases "0 < k")
  case True
  have tk: "take k (centipede_segments g') = take k cs" using k by (simp add: cs')
  have nk: "centipede_segments g' ! (k - 1) = cs ! (k - 1)"
    using True k by (simp add: cs' nth_append)
  have ne: "centipede_segments g' \<noteq> []" using True k by (auto simp: cs')
  have cne: "cs \<noteq> []" using k by auto
  then have tne: "take k cs \<noteq> []" using True by simp
  have h0: "hd (centipede_segments g') = cs ! 0"
    using cne tne by (simp add: cs' hd_append hd_conv_nth)
  have Hk: "is_head (segment_store g' r) \<longleftrightarrow>
           is_head (segment_store g r) \<or> r = cs ! (k - 1) \<or> r = cs ! 0" for r
    unfolding H nk h0 using True ne by simp
  have dt: "distinct (take k cs)" using d by simp
  have "{r \<in> set (take k cs). is_head (segment_store g' r)} = {cs ! 0, cs ! (k - 1)}"
  proof (intro equalityI subsetI)
    fix r assume "r \<in> {r \<in> set (take k cs). is_head (segment_store g' r)}"
    then have rin: "r \<in> set (take k cs)" and rh: "is_head (segment_store g' r)" by simp_all
    from rin have "r \<in> set cs" by (rule in_set_takeD)
    then obtain i where i: "i < length cs" "cs ! i = r" by (auto simp: in_set_conv_nth)
    from rh Hk have "is_head (segment_store g r) \<or> r = cs ! (k - 1) \<or> r = cs ! 0" by simp
    moreover have "is_head (segment_store g r) \<Longrightarrow> r = cs ! 0"
      using fresh i by auto
    ultimately show "r \<in> {cs ! 0, cs ! (k - 1)}" by blast
  next
    fix r assume "r \<in> {cs ! 0, cs ! (k - 1)}"
    then consider "r = cs ! 0" | "r = cs ! (k - 1)" by blast
    then show "r \<in> {r \<in> set (take k cs). is_head (segment_store g' r)}"
    proof cases
      case 1
      have "take k cs ! 0 \<in> set (take k cs)" using True k by (intro nth_mem) simp
      then have "cs ! 0 \<in> set (take k cs)" using True by simp
      with 1 Hk show ?thesis by simp
    next
      case 2
      have "take k cs ! (k - 1) \<in> set (take k cs)" using True k by (intro nth_mem) simp
      then have "cs ! (k - 1) \<in> set (take k cs)" using True by simp
      with 2 Hk show ?thesis by simp
    qed
  qed
  then have "count_heads g' (take k cs) = card {cs ! 0, cs ! (k - 1)}"
    using count_heads_card[OF dt, of g'] by simp
  also have "\<dots> = min k 2"
  proof (cases "k = 1")
    case True
    then show ?thesis by simp
  next
    case False
    with \<open>0 < k\<close> have "0 \<noteq> k - 1" by simp
    moreover have "0 < length cs" "k - 1 < length cs" using k by linarith+
    ultimately have "cs ! 0 \<noteq> cs ! (k - 1)"
      using nth_eq_iff_index_eq[OF d, of 0 "k - 1"] by blast
    then show ?thesis using False \<open>0 < k\<close> by simp
  qed
  finally show ?thesis using True tk by simp
next
  case False
  then have k0: "k = 0" by simp
  have csd: "centipede_segments g' = drop 1 cs" using k0 by (simp add: cs')
  have Hk: "is_head (segment_store g' r) \<longleftrightarrow>
           is_head (segment_store g r) \<or> (drop 1 cs \<noteq> [] \<and> r = hd (drop 1 cs))" for r
    unfolding H csd using k0 by simp
  have nohead: "\<not> is_head (segment_store g r)" if "r \<in> set (drop 1 cs)" for r
  proof -
    from that obtain j where j: "j < length (drop 1 cs)" "drop 1 cs ! j = r"
      unfolding in_set_conv_nth by blast
    then have "Suc j < length cs" "r = cs ! Suc j" by auto
    with fresh show ?thesis by auto
  qed
  have dd: "distinct (drop 1 cs)" using d by simp
  have "count_heads g' (drop 1 cs) = min 1 (length (drop 1 cs))"
  proof (cases "drop 1 cs = []")
    case True
    then show ?thesis by (simp add: count_heads_def)
  next
    case ne: False
    then have hin: "hd (drop 1 cs) \<in> set (drop 1 cs)" by (rule hd_in_set)
    have "{r \<in> set (drop 1 cs). is_head (segment_store g' r)} = {hd (drop 1 cs)}"
      using nohead hin ne unfolding Hk by blast
    then have "count_heads g' (drop 1 cs) = 1"
      using count_heads_card[OF dd, of g'] by simp
    moreover have "0 < length (drop 1 cs)" using ne by simp
    ultimately show ?thesis by simp
  qed
  then show ?thesis using k0 csd by (simp add: count_heads_def)
qed

text \<open>
  Claim C1, amended. Splitting a chain of distinct segments at index \<open>k\<close> clears no head
  flag. When \<open>k > 0\<close> the last segment before the gap is a head afterwards, so the
  segments before the gap hold at least one head; when \<open>k = 0\<close> and segments remain, the
  first of them is a head. If before the split the head flag was on the first segment
  only, the segments before the gap hold exactly \<open>min k 2\<close> heads afterwards (the old
  head and the promoted segment), and for \<open>k = 0\<close> the remaining segments hold exactly
  one.
\<close>

theorem split_promotes_without_clearing:
  assumes "distinct (centipede_segments g)" "k < length (centipede_segments g)"
  shows "\<exists>g'. split_centipede_at_segment (centipede_segments g ! k) g = Inr g'
     \<and> (\<forall>r. is_head (segment_store g r) \<longrightarrow> is_head (segment_store g' r))
     \<and> (0 < k \<longrightarrow>
           is_head (segment_store g' (last (take k (centipede_segments g'))))
           \<and> 1 \<le> count_heads g' (take k (centipede_segments g')))
     \<and> (k = 0 \<and> centipede_segments g' \<noteq> [] \<longrightarrow>
           is_head (segment_store g' (hd (drop k (centipede_segments g'))))
           \<and> 1 \<le> count_heads g' (drop k (centipede_segments g')))
     \<and> ((\<forall>i<length (centipede_segments g).
            is_head (segment_store g (centipede_segments g ! i)) \<longleftrightarrow> i = 0) \<longrightarrow>
           count_heads g' (take k (centipede_segments g')) = min k 2
           \<and> (k = 0 \<longrightarrow> count_heads g' (drop k (centipede_segments g'))
                          = min 1 (length (centipede_segments g'))))"
proof -
  define cs where "cs = centipede_segments g"
  have d: "distinct cs" and k: "k < length cs" using assms by (simp_all add: cs_def)
  have idx: "list_index cs (cs ! k) = Inr k"
    by (rule list_index_nth_distinct[OF d k])
  have mem: "cs ! k \<in> set cs" using k by simp
  from split_at_index[of g "cs ! k" k] idx mem obtain g' where
    res: "split_centipede_at_segment (cs ! k) g = Inr g'"
    and cs': "centipede_segments g' = take k cs @ drop (Suc k) cs"
    and H: "\<And>r. is_head (segment_store g' r) \<longleftrightarrow>
           is_head (segment_store g r)
           \<or> (0 < k \<and> r = centipede_segments g' ! (k - 1))
           \<or> (centipede_segments g' \<noteq> [] \<and> r = hd (centipede_segments g'))"
    unfolding cs_def by blast
  have keep: "\<forall>r. is_head (segment_store g r) \<longrightarrow> is_head (segment_store g' r)"
    using H by blast
  have front: "0 < k \<longrightarrow>
           is_head (segment_store g' (last (take k (centipede_segments g'))))
           \<and> 1 \<le> count_heads g' (take k (centipede_segments g'))"
  proof
    assume pos: "0 < k"
    have lk: "length (centipede_segments g') = length cs - 1" using k by (simp add: cs')
    then have k1: "k - 1 < length (centipede_segments g')" using pos k by linarith
    have kle: "k \<le> length (centipede_segments g')" using lk k by linarith
    have ne: "take k (centipede_segments g') \<noteq> []" using pos k1 by auto
    have "last (take k (centipede_segments g')) = take k (centipede_segments g') ! (k - 1)"
      using ne kle by (simp add: last_conv_nth min_def)
    also have "\<dots> = centipede_segments g' ! (k - 1)" using pos by simp
    finally have l: "last (take k (centipede_segments g')) = centipede_segments g' ! (k - 1)" .
    have hl: "is_head (segment_store g' (last (take k (centipede_segments g'))))"
      unfolding l using H pos by blast
    have "last (take k (centipede_segments g')) \<in> set (take k (centipede_segments g'))"
      using ne by (rule last_in_set)
    from count_heads_pos[OF this hl] hl
    show "is_head (segment_store g' (last (take k (centipede_segments g'))))
           \<and> 1 \<le> count_heads g' (take k (centipede_segments g'))" by simp
  qed
  have rear: "k = 0 \<and> centipede_segments g' \<noteq> [] \<longrightarrow>
           is_head (segment_store g' (hd (drop k (centipede_segments g'))))
           \<and> 1 \<le> count_heads g' (drop k (centipede_segments g'))"
  proof
    assume a: "k = 0 \<and> centipede_segments g' \<noteq> []"
    then have hh: "is_head (segment_store g' (hd (centipede_segments g')))" using H by blast
    have "hd (centipede_segments g') \<in> set (centipede_segments g')"
      using a by (intro hd_in_set) simp
    from count_heads_pos[OF this hh] hh a
    show "is_head (segment_store g' (hd (drop k (centipede_segments g'))))
           \<and> 1 \<le> count_heads g' (drop k (centipede_segments g'))" by simp
  qed
  have exact: "(\<forall>i<length cs. is_head (segment_store g (cs ! i)) \<longleftrightarrow> i = 0) \<longrightarrow>
           count_heads g' (take k (centipede_segments g')) = min k 2
           \<and> (k = 0 \<longrightarrow> count_heads g' (drop k (centipede_segments g'))
                          = min 1 (length (centipede_segments g')))"
    using split_head_counts[OF d k _ cs' H] by blast
  show ?thesis
    unfolding cs_def[symmetric]
    using res keep front rear exact by (intro exI[of _ g']) (simp only: simp_thms)
qed

text \<open>The first centipede, hit at index 5: segment 4 is promoted and two heads precede the gap.\<close>

theorem split_promotes_without_clearing_witness:
  "distinct (centipede_segments fresh_game)
   \<and> 5 < length (centipede_segments fresh_game)
   \<and> centipede_segments fresh_game ! 5 = 5
   \<and> (\<exists>g'. split_centipede_at_segment 5 fresh_game = Inr g'
         \<and> is_head (segment_store g' (last (take 5 (centipede_segments g'))))
         \<and> count_heads g' (take 5 (centipede_segments g')) = 2)"
proof -
  have a: "distinct (centipede_segments fresh_game)" by (rule fresh_game_distinct)
  have b: "5 < length (centipede_segments fresh_game)" by (simp add: fresh_game_segments)
  have c: "centipede_segments fresh_game ! 5 = 5" by (simp add: fresh_game_segments)
  have f: "\<forall>i<length (centipede_segments fresh_game).
            is_head (segment_store fresh_game (centipede_segments fresh_game ! i)) \<longleftrightarrow> i = 0"
  proof (intro allI impI)
    fix i assume "i < length (centipede_segments fresh_game)"
    then have i: "i < 12" by (simp add: fresh_game_segments)
    then have "i \<in> set [0..<12]" by simp
    then have "i \<in> set [0, 1, 2, 3, 4, 5, 6, 7, 8, 9, 10, 11]" unfolding upt_12 .
    moreover have "centipede_segments fresh_game ! i = i"
      using i unfolding fresh_game_segments upt_12[symmetric] by simp
    ultimately show "is_head (segment_store fresh_game (centipede_segments fresh_game ! i)) \<longleftrightarrow> i = 0"
      using fresh_game_head_iff by simp
  qed
  from split_promotes_without_clearing[OF a b] obtain g' where g':
    "split_centipede_at_segment (centipede_segments fresh_game ! 5) fresh_game = Inr g'
     \<and> (\<forall>r. is_head (segment_store fresh_game r) \<longrightarrow> is_head (segment_store g' r))
     \<and> (0 < (5::nat) \<longrightarrow>
           is_head (segment_store g' (last (take 5 (centipede_segments g'))))
           \<and> 1 \<le> count_heads g' (take 5 (centipede_segments g')))
     \<and> ((5::nat) = 0 \<and> centipede_segments g' \<noteq> [] \<longrightarrow>
           is_head (segment_store g' (hd (drop 5 (centipede_segments g'))))
           \<and> 1 \<le> count_heads g' (drop 5 (centipede_segments g')))
     \<and> ((\<forall>i<length (centipede_segments fresh_game).
            is_head (segment_store fresh_game (centipede_segments fresh_game ! i)) \<longleftrightarrow> i = 0) \<longrightarrow>
           count_heads g' (take 5 (centipede_segments g')) = min 5 2
           \<and> ((5::nat) = 0 \<longrightarrow> count_heads g' (drop 5 (centipede_segments g'))
                          = min 1 (length (centipede_segments g'))))"
    ..
  from g' have r1: "split_centipede_at_segment 5 fresh_game = Inr g'"
    unfolding c by (rule conjunct1)
  from g' have r2: "is_head (segment_store g' (last (take 5 (centipede_segments g'))))"
    by simp
  from g' f have r3: "count_heads g' (take 5 (centipede_segments g')) = 2"
    by simp
  from r1 r2 r3 have "split_centipede_at_segment 5 fresh_game = Inr g'
         \<and> is_head (segment_store g' (last (take 5 (centipede_segments g'))))
         \<and> count_heads g' (take 5 (centipede_segments g')) = 2"
    by (intro conjI)
  then have "\<exists>g'. split_centipede_at_segment 5 fresh_game = Inr g'
         \<and> is_head (segment_store g' (last (take 5 (centipede_segments g'))))
         \<and> count_heads g' (take 5 (centipede_segments g')) = 2"
    by blast
  with a b c show ?thesis by blast
qed

section \<open>Chains hold distinct segments\<close>

text \<open>
  The distinctness assumed of the chain above holds in every state the game reaches:
  \<^verbatim>\<open>spawn_centipede\<close> fills the list with freshly created segments, and a split only
  removes an element.
\<close>

lemma spawn_segment_chain:
  "centipede_segments (spawn_segment sx i g) = centipede_segments g @ [next_ref g]"
  "next_ref (spawn_segment sx i g) = Suc (next_ref g)"
  by (simp_all add: spawn_segment_def add_object_def Let_def)

lemma fold_spawn_segment_chain:
  "centipede_segments (fold (spawn_segment sx) [0..<n] g)
      = centipede_segments g @ map (\<lambda>i. next_ref g + i) [0..<n]
   \<and> next_ref (fold (spawn_segment sx) [0..<n] g) = next_ref g + n"
  by (induction n) (simp_all add: spawn_segment_chain)

lemma spawn_centipede_distinct:
  "distinct (centipede_segments (spawn_centipede coin g))"
proof -
  have "centipede_segments (spawn_centipede coin g)
          = map (\<lambda>i. next_ref g + i) [0..<nat (current_centipede_length g)]"
    by (simp add: spawn_centipede_def fold_spawn_segment_chain)
  moreover have "inj_on (\<lambda>i. next_ref g + i) (set [0..<nat (current_centipede_length g)])"
    by (rule inj_onI) simp
  ultimately show ?thesis by (simp add: distinct_map)
qed

lemma split_preserves_distinct:
  assumes "distinct (centipede_segments g)" "split_centipede_at_segment v g = Inr g'"
  shows "distinct (centipede_segments g')"
proof (cases "v \<in> set (centipede_segments g)")
  case True
  from list_index_remove_member[OF True] obtain k where
    k: "list_index (centipede_segments g) v = Inr k" "k < length (centipede_segments g)" by blast
  from split_at_index[OF k(1) True] assms(2)
  have cs': "centipede_segments g' =
     take k (centipede_segments g) @ drop (Suc k) (centipede_segments g)" by auto
  have "distinct (take k (centipede_segments g) @ centipede_segments g ! k
                    # drop (Suc k) (centipede_segments g))"
    using assms(1) nth_decomp[OF k(2)] by simp
  then show ?thesis unfolding cs' by simp
next
  case False
  with assms show ?thesis by (simp add: split_centipede_at_segment_def)
qed

end
